theory Spec2Isabelle
  imports Complex_Main
begin

section \<open>Constants and the height field\<close>

text \<open>
  The program is \<^verbatim>\<open>src/pages/MinecraftGame.tsx\<close>. A JavaScript \<^verbatim>\<open>number\<close> that holds
  a measurement (angles, positions, speeds, noise values) is modelled as a mathematical
  \<^typ>\<open>real\<close>, which is the reading the specification itself takes (``real number'');
  the rounding of IEEE-754 doubles is not part of the model. Numbers that the code only
  uses as integers (chunk coordinates, loop counters, floored heights, slot indices) are
  \<^typ>\<open>int\<close> or \<^typ>\<open>nat\<close>.
\<close>

definition CHUNK_SIZE :: nat where
  "CHUNK_SIZE = 12"

definition RENDER_DISTANCE :: int where
  "RENDER_DISTANCE = 3"

definition BLOCK_SIZE :: real where
  "BLOCK_SIZE = 1"

text \<open>Lines 67--73: the three-octave sum of products of sines and cosines.\<close>

definition noise :: "real \<Rightarrow> real \<Rightarrow> real" where
  "noise x z =
     (let xx = x * 0.1;
          zz = z * 0.1
      in sin xx * cos zz * 3 +
         sin (xx * 2) * cos (zz * 2) * 1.5 +
         sin (xx * 4) * cos (zz * 4) * 0.75)"

section \<open>Terrain: chunk builder and world assembler\<close>

text \<open>
  A three.js buffer geometry made of unit cubes is modelled by the list of the centres of
  its cubes. \<^verbatim>\<open>new THREE.BoxGeometry(BLOCK_SIZE, BLOCK_SIZE, BLOCK_SIZE)\<close> is one cube
  centred at the origin, \<^verbatim>\<open>clone\<close> copies it, \<^verbatim>\<open>translate\<close> moves every cube, and the
  library's \<^verbatim>\<open>mergeGeometries\<close> concatenates the buffers of its arguments.
\<close>

datatype material = grass | dirt | stone

type_synonym geometry = "(int \<times> int \<times> int) list"

record mesh =
  mesh_geometry :: geometry
  mesh_material :: material

definition blockGeometry :: geometry where
  "blockGeometry = [(0, 0, 0)]"

definition translate :: "int \<Rightarrow> int \<Rightarrow> int \<Rightarrow> geometry \<Rightarrow> geometry" where
  "translate dx dy dz geo = map (\<lambda>(a, b, c). (a + dx, b + dy, c + dz)) geo"

definition mergeGeometries :: "geometry list \<Rightarrow> geometry" where
  "mergeGeometries geometries = concat geometries"

text \<open>Lines 88--93: the body of the inner loop, up to the push.\<close>

definition column_geometry :: "int \<Rightarrow> int \<Rightarrow> nat \<Rightarrow> nat \<Rightarrow> geometry" where
  "column_geometry cx cz x z =
     (let worldX = cx * int CHUNK_SIZE + int x;
          worldZ = cz * int CHUNK_SIZE + int z;
          height = \<lfloor>noise (of_int worldX) (of_int worldZ) + 8\<rfloor>;
          geo = translate worldX height worldZ blockGeometry
      in geo)"

text \<open>
  Lines 86--96. The inner loop over \<open>z\<close> and the outer loop over \<open>x\<close>, each pushing onto the
  array \<open>geometries\<close>.
\<close>

function chunk_z_loop :: "int \<Rightarrow> int \<Rightarrow> nat \<Rightarrow> nat \<Rightarrow> geometry list \<Rightarrow> geometry list" where
  "chunk_z_loop cx cz x z geometries =
     (if z < CHUNK_SIZE then
        chunk_z_loop cx cz x (Suc z) (geometries @ [column_geometry cx cz x z])
      else geometries)"
  by pat_completeness auto
termination
  by (relation "measure (\<lambda>(cx, cz, x, z, geometries). CHUNK_SIZE - z)") auto

function chunk_x_loop :: "int \<Rightarrow> int \<Rightarrow> nat \<Rightarrow> geometry list \<Rightarrow> geometry list" where
  "chunk_x_loop cx cz x geometries =
     (if x < CHUNK_SIZE then chunk_x_loop cx cz (Suc x) (chunk_z_loop cx cz x 0 geometries)
      else geometries)"
  by pat_completeness auto
termination
  by (relation "measure (\<lambda>(cx, cz, x, geometries). CHUNK_SIZE - x)") auto

text \<open>
  Lines 83--106. Whether \<^verbatim>\<open>THREE.BufferGeometryUtils?.mergeGeometries\<close> is defined depends
  on the three.js namespace that is loaded, so it is the parameter \<open>mergeAvailable\<close>. The
  namespace imported at line 2 is the core module \<^verbatim>\<open>three\<close>, which has no member
  \<^verbatim>\<open>BufferGeometryUtils\<close> (the utility is an add-on module of its own), so the program as
  it stands runs with \<open>mergeAvailable = False\<close>. The read \<^verbatim>\<open>geometries[0]\<close> happens only
  under the guard \<^verbatim>\<open>geometries.length > 0\<close>.
\<close>

definition createMergedChunk :: "bool \<Rightarrow> int \<Rightarrow> int \<Rightarrow> geometry" where
  "createMergedChunk mergeAvailable cx cz =
     (let geometries = chunk_x_loop cx cz 0 [];
          mergedGeometry = []
      in case geometries of
           [] \<Rightarrow> mergedGeometry
         | first # _ \<Rightarrow> (if mergeAvailable then mergeGeometries geometries else first))"

text \<open>Lines 111--112: the mesh of one chunk, always with the grass material.\<close>

definition chunk_mesh :: "bool \<Rightarrow> int \<Rightarrow> int \<Rightarrow> mesh" where
  "chunk_mesh mergeAvailable cx cz =
     (let chunkGeometry = createMergedChunk mergeAvailable cx cz;
          chunkMesh = \<lparr>mesh_geometry = chunkGeometry, mesh_material = grass\<rparr>
      in chunkMesh)"

text \<open>Lines 108--116: the two loops over chunk coordinates, pushing one mesh per chunk.\<close>

function world_cz_loop :: "bool \<Rightarrow> int \<Rightarrow> int \<Rightarrow> mesh list \<Rightarrow> mesh list" where
  "world_cz_loop mergeAvailable cx cz chunks =
     (if cz < RENDER_DISTANCE then
        world_cz_loop mergeAvailable cx (cz + 1) (chunks @ [chunk_mesh mergeAvailable cx cz])
      else chunks)"
  by pat_completeness auto
termination
  by (relation "measure (\<lambda>(m, cx, cz, chunks). nat (RENDER_DISTANCE - cz))") auto

function world_cx_loop :: "bool \<Rightarrow> int \<Rightarrow> mesh list \<Rightarrow> mesh list" where
  "world_cx_loop mergeAvailable cx chunks =
     (if cx < RENDER_DISTANCE then
        world_cx_loop mergeAvailable (cx + 1)
          (world_cz_loop mergeAvailable cx (- RENDER_DISTANCE) chunks)
      else chunks)"
  by pat_completeness auto
termination
  by (relation "measure (\<lambda>(m, cx, chunks). nat (RENDER_DISTANCE - cx))") auto

definition world_chunks :: "bool \<Rightarrow> mesh list" where
  "world_chunks mergeAvailable = world_cx_loop mergeAvailable (- RENDER_DISTANCE) []"

text \<open>The number of cubes in the geometries of a list of meshes.\<close>

definition total_blocks :: "mesh list \<Rightarrow> nat" where
  "total_blocks ms = sum_list (map (\<lambda>m. length (mesh_geometry m)) ms)"

section \<open>Vectors\<close>

text \<open>
  The methods of \<^verbatim>\<open>THREE.Vector3\<close> that the frame loop calls, as three.js defines them:
  \<^verbatim>\<open>length\<close> is the Euclidean norm, \<^verbatim>\<open>divideScalar(s)\<close> is \<^verbatim>\<open>multiplyScalar(1 / s)\<close>, and
  \<^verbatim>\<open>normalize()\<close> is \<^verbatim>\<open>divideScalar(this.length() || 1)\<close>, so a vector of length zero is
  divided by one.
\<close>

record vector3 =
  vec_x :: real
  vec_y :: real
  vec_z :: real

definition set3 :: "real \<Rightarrow> real \<Rightarrow> real \<Rightarrow> vector3" where
  "set3 a b c = \<lparr>vec_x = a, vec_y = b, vec_z = c\<rparr>"

definition length3 :: "vector3 \<Rightarrow> real" where
  "length3 v = sqrt (vec_x v * vec_x v + vec_y v * vec_y v + vec_z v * vec_z v)"

definition multiplyScalar :: "vector3 \<Rightarrow> real \<Rightarrow> vector3" where
  "multiplyScalar v s = \<lparr>vec_x = vec_x v * s, vec_y = vec_y v * s, vec_z = vec_z v * s\<rparr>"

definition divideScalar :: "vector3 \<Rightarrow> real \<Rightarrow> vector3" where
  "divideScalar v s = multiplyScalar v (1 / s)"

definition normalize3 :: "vector3 \<Rightarrow> vector3" where
  "normalize3 v = divideScalar v (if length3 v = 0 then 1 else length3 v)"

definition addScaledVector :: "vector3 \<Rightarrow> vector3 \<Rightarrow> real \<Rightarrow> vector3" where
  "addScaledVector a v s =
     \<lparr>vec_x = vec_x a + vec_x v * s, vec_y = vec_y a + vec_y v * s, vec_z = vec_z a + vec_z v * s\<rparr>"

definition add3 :: "vector3 \<Rightarrow> vector3 \<Rightarrow> vector3" where
  "add3 a v = \<lparr>vec_x = vec_x a + vec_x v, vec_y = vec_y a + vec_y v, vec_z = vec_z a + vec_z v\<rparr>"

definition sub3 :: "vector3 \<Rightarrow> vector3 \<Rightarrow> vector3" where
  "sub3 a v = \<lparr>vec_x = vec_x a - vec_x v, vec_y = vec_y a - vec_y v, vec_z = vec_z a - vec_z v\<rparr>"

section \<open>Input and camera state\<close>

text \<open>
  The mutable variables of one run of the effect (lines 127--139, the camera and the arm
  group), with the React state \<open>selectedSlot\<close>. The value \<open>isPointerLocked\<close> is captured by
  the closures of one run of the effect and does not change during it, so it is a
  parameter of the handler that reads it. The frame counter of lines 203--212 and the
  render call have no effect on these variables and are left out.
\<close>

record stick =
  stick_x :: real
  stick_y :: real

record gamepad =
  axes :: "real list"
  pressed :: "bool list"

record game_state =
  keys :: "string \<rightharpoonup> bool"
  velocity :: vector3
  direction :: vector3
  yaw :: real
  pitch :: real
  armSwing :: real
  armSwingSpeed :: real
  leftStick :: stick
  rightStick :: stick
  buttons :: "bool list"
  camera_position :: vector3
  camera_rotation :: "real \<times> real \<times> real"
  armGroup_rotation_x :: real
  armGroup_rotation_z :: real
  selectedSlot :: int

definition initial_state :: game_state where
  "initial_state =
     \<lparr>keys = Map.empty,
      velocity = set3 0 0 0,
      direction = set3 0 0 0,
      yaw = 0,
      pitch = 0,
      armSwing = 0,
      armSwingSpeed = 0,
      leftStick = \<lparr>stick_x = 0, stick_y = 0\<rparr>,
      rightStick = \<lparr>stick_x = 0, stick_y = 0\<rparr>,
      buttons = replicate 16 False,
      camera_position = set3 8 15 8,
      camera_rotation = (0, 0, 0),
      armGroup_rotation_x = 0,
      armGroup_rotation_z = 0,
      selectedSlot = 0\<rparr>"

text \<open>A key counts as held when its entry is \<^verbatim>\<open>true\<close>; a missing entry is \<^verbatim>\<open>undefined\<close>, falsy.\<close>

definition held :: "game_state \<Rightarrow> string \<Rightarrow> bool" where
  "held st k = (keys st k = Some True)"

subsection \<open>Keyboard\<close>

definition startsWith :: "string \<Rightarrow> string \<Rightarrow> bool" where
  "startsWith s p = (take (length p) s = p)"

text \<open>\<^verbatim>\<open>String.prototype.replace\<close> with a string pattern replaces its first occurrence.\<close>

fun replace_first :: "string \<Rightarrow> string \<Rightarrow> string \<Rightarrow> string" where
  "replace_first pat rep [] = (if pat = [] then rep else [])"
| "replace_first pat rep (c # cs) =
     (if take (length pat) (c # cs) = pat then rep @ drop (length pat) (c # cs)
      else c # replace_first pat rep cs)"

text \<open>
  \<^verbatim>\<open>parseInt\<close> with no radix, following ECMAScript: leading white space is skipped, one sign
  is read, a prefix \<^verbatim>\<open>0x\<close> or \<^verbatim>\<open>0X\<close> switches to radix 16, and the longest run of digits of
  the radix is the value; with no digit the result is \<^verbatim>\<open>NaN\<close>, here \<open>None\<close>. A \<^typ>\<open>char\<close>
  stands for a UTF-16 code unit below 256; the white space and line terminator code units
  in that range are 9 to 13, 32 and 160 (the no-break space).
\<close>

definition is_white_space :: "char \<Rightarrow> bool" where
  "is_white_space c = (of_char c \<in> {9, 10, 11, 12, 13, 32, 160 :: nat})"

definition digit_value :: "char \<Rightarrow> nat option" where
  "digit_value c =
     (let n = of_char c :: nat
      in if 48 \<le> n \<and> n \<le> 57 then Some (n - 48)
         else if 97 \<le> n \<and> n \<le> 122 then Some (n - 87)
         else if 65 \<le> n \<and> n \<le> 90 then Some (n - 55)
         else None)"

definition is_radix_digit :: "nat \<Rightarrow> char \<Rightarrow> bool" where
  "is_radix_digit radix c = (case digit_value c of None \<Rightarrow> False | Some d \<Rightarrow> d < radix)"

definition digits_value :: "nat \<Rightarrow> string \<Rightarrow> nat" where
  "digits_value radix zs =
     foldl (\<lambda>acc c. acc * radix + (case digit_value c of None \<Rightarrow> 0 | Some d \<Rightarrow> d)) 0 zs"

definition parseInt :: "string \<Rightarrow> int option" where
  "parseInt str =
     (let s0 = dropWhile is_white_space str;
          sign = (if take 1 s0 = ''-'' then - 1 else 1 :: int);
          s1 = (if take 1 s0 = ''+'' \<or> take 1 s0 = ''-'' then drop 1 s0 else s0);
          hex = (take 2 s1 = ''0x'' \<or> take 2 s1 = ''0X'');
          radix = (if hex then 16 else 10);
          s2 = (if hex then drop 2 s1 else s1);
          zs = takeWhile (is_radix_digit radix) s2
      in if zs = [] then None else Some (sign * int (digits_value radix zs)))"

text \<open>Lines 141--151. A \<^verbatim>\<open>NaN\<close> slot fails both comparisons of line 145.\<close>

definition handleKeyDown :: "string \<Rightarrow> game_state \<Rightarrow> game_state" where
  "handleKeyDown code st =
     (let st1 = st\<lparr>keys := (keys st)(code \<mapsto> True)\<rparr>
      in if startsWith code ''Digit'' then
           (case parseInt (replace_first ''Digit'' [] code) of
              None \<Rightarrow> st1
            | Some n \<Rightarrow>
                (let slot = n - 1
                 in if slot \<ge> 0 \<and> slot < 9 then st1\<lparr>selectedSlot := slot\<rparr> else st1))
         else st1)"

definition handleKeyUp :: "string \<Rightarrow> game_state \<Rightarrow> game_state" where
  "handleKeyUp code st = st\<lparr>keys := (keys st)(code \<mapsto> False)\<rparr>"

subsection \<open>Mouse and gamepad\<close>

text \<open>Lines 153--158.\<close>

definition handleMouseMove :: "bool \<Rightarrow> real \<Rightarrow> real \<Rightarrow> game_state \<Rightarrow> game_state" where
  "handleMouseMove isPointerLocked movementX movementY st =
     (if \<not> isPointerLocked then st
      else
        (let yaw1 = yaw st - movementX * 0.002;
             pitch1 = pitch st - movementY * 0.002;
             pitch2 = max (- pi / 2) (min (pi / 2) pitch1)
         in st\<lparr>yaw := yaw1, pitch := pitch2\<rparr>))"

text \<open>
  Lines 175--178: an axis outside the dead zone is taken, anything else is zero. An index
  past the end of \<^verbatim>\<open>gamepad.axes\<close> reads \<^verbatim>\<open>undefined\<close>, whose absolute value \<^verbatim>\<open>NaN\<close> fails
  the comparison, so it is zero as well.
\<close>

definition dead_zone :: "real list \<Rightarrow> nat \<Rightarrow> real" where
  "dead_zone as i = (if i < length as \<and> \<bar>as ! i\<bar> > 0.1 then as ! i else 0)"

text \<open>
  Lines 184--186: an assignment at the end of a JavaScript array extends it. The loop
  assigns the indices in order from zero, so no index is skipped; a skipped index would
  read \<^verbatim>\<open>undefined\<close>, falsy, here \<open>False\<close>.
\<close>

definition array_set :: "bool list \<Rightarrow> nat \<Rightarrow> bool \<Rightarrow> bool list" where
  "array_set xs i v =
     (if i < length xs then xs[i := v] else xs @ replicate (i - length xs) False @ [v])"

function buttons_loop :: "bool list \<Rightarrow> nat \<Rightarrow> bool list \<Rightarrow> bool list" where
  "buttons_loop ps i cache =
     (if i < length ps then buttons_loop ps (Suc i) (array_set cache i (ps ! i)) else cache)"
  by pat_completeness auto
termination
  by (relation "measure (\<lambda>(ps, i, cache). length ps - i)") auto

text \<open>Lines 170--188. \<open>None\<close> is a missing gamepad (\<^verbatim>\<open>gamepads[0]\<close> is \<^verbatim>\<open>null\<close>).\<close>

definition updateGamepad :: "gamepad option \<Rightarrow> game_state \<Rightarrow> game_state" where
  "updateGamepad gp st =
     (case gp of
        None \<Rightarrow> st
      | Some g \<Rightarrow>
          (let ls = \<lparr>stick_x = dead_zone (axes g) 0, stick_y = dead_zone (axes g) 1\<rparr>;
               rs = \<lparr>stick_x = dead_zone (axes g) 2, stick_y = dead_zone (axes g) 3\<rparr>;
               yaw1 = yaw st - stick_x rs * 0.05;
               pitch1 = pitch st - stick_y rs * 0.05;
               pitch2 = max (- pi / 2) (min (pi / 2) pitch1)
           in st\<lparr>leftStick := ls, rightStick := rs, yaw := yaw1, pitch := pitch2,
                 buttons := buttons_loop (pressed g) 0 (buttons st)\<rparr>))"

subsection \<open>The frame tick\<close>

text \<open>Lines 219--221.\<close>

definition compute_isMoving :: "game_state \<Rightarrow> bool" where
  "compute_isMoving st =
     (held st ''KeyW'' \<or> held st ''KeyS'' \<or> held st ''KeyA'' \<or> held st ''KeyD'' \<or>
      \<bar>stick_x (leftStick st)\<bar> > 0.1 \<or>
      \<bar>stick_y (leftStick st)\<bar> > 0.1)"

text \<open>Lines 216 and 223--226: the direction before it is normalized.\<close>

definition compute_direction :: "game_state \<Rightarrow> vector3" where
  "compute_direction st =
     (let d0 = set3 0 0 0;
          d1 = (if held st ''KeyW'' \<or> stick_y (leftStick st) < - 0.1 then d0\<lparr>vec_z := - 1\<rparr> else d0);
          d2 = (if held st ''KeyS'' \<or> stick_y (leftStick st) > 0.1 then d1\<lparr>vec_z := 1\<rparr> else d1);
          d3 = (if held st ''KeyA'' \<or> stick_x (leftStick st) < - 0.1 then d2\<lparr>vec_x := - 1\<rparr> else d2);
          d4 = (if held st ''KeyD'' \<or> stick_x (leftStick st) > 0.1 then d3\<lparr>vec_x := 1\<rparr> else d3)
      in d4)"

text \<open>Lines 218 and 230--243, from the normalized direction \<open>dir\<close> and the yaw.\<close>

definition compute_velocity :: "vector3 \<Rightarrow> real \<Rightarrow> vector3" where
  "compute_velocity dir a =
     (let moveSpeed = 0.15;
          forward = set3 (sin a) 0 (cos a);
          right = set3 (sin (a + pi / 2)) 0 (cos (a + pi / 2));
          v0 = set3 0 0 0;
          v1 = addScaledVector v0 forward (- vec_z dir * moveSpeed);
          v2 = addScaledVector v1 right (vec_x dir * moveSpeed)
      in v2)"

text \<open>Lines 214--257, one call of \<^verbatim>\<open>animate\<close> with the gamepad it polls.\<close>

definition animate :: "gamepad option \<Rightarrow> game_state \<Rightarrow> game_state" where
  "animate gp st0 =
     (let st = updateGamepad gp st0;
          isMoving = compute_isMoving st;
          dir = normalize3 (compute_direction st);
          vel = compute_velocity dir (yaw st);
          pos = add3 (camera_position st) vel;
          speed = (if isMoving then 0.15 else armSwingSpeed st * 0.9);
          swing = armSwing st + speed
      in st\<lparr>direction := dir,
            velocity := vel,
            camera_position := pos,
            camera_rotation := (pitch st, yaw st, 0),
            armSwingSpeed := speed,
            armSwing := swing,
            armGroup_rotation_x := sin swing * 0.3,
            armGroup_rotation_z := sin (swing * 0.5) * 0.1\<rparr>)"

text \<open>The displacement of the camera over one tick.\<close>

definition displacement :: "gamepad option \<Rightarrow> game_state \<Rightarrow> vector3" where
  "displacement gp st = sub3 (camera_position (animate gp st)) (camera_position st)"

subsection \<open>Runs of one mounted effect\<close>

text \<open>
  The callbacks that the browser may invoke on the state, in any order: the handlers
  registered at lines 190--192 and the frame callback.
\<close>

datatype event =
  KeyDown string
| KeyUp string
| MouseMove real real
| Frame "gamepad option"

fun dispatch :: "bool \<Rightarrow> game_state \<Rightarrow> event \<Rightarrow> game_state" where
  "dispatch isPointerLocked st (KeyDown code) = handleKeyDown code st"
| "dispatch isPointerLocked st (KeyUp code) = handleKeyUp code st"
| "dispatch isPointerLocked st (MouseMove movementX movementY) =
     handleMouseMove isPointerLocked movementX movementY st"
| "dispatch isPointerLocked st (Frame gp) = animate gp st"

definition run :: "bool \<Rightarrow> event list \<Rightarrow> game_state \<Rightarrow> game_state" where
  "run isPointerLocked evs st = foldl (dispatch isPointerLocked) st evs"

text \<open>Consecutive frame ticks, and the ticks among them in which the player does not move.\<close>

fun ticks :: "gamepad option list \<Rightarrow> game_state \<Rightarrow> game_state" where
  "ticks [] st = st"
| "ticks (gp # gps) st = ticks gps (animate gp st)"

fun all_idle :: "gamepad option list \<Rightarrow> game_state \<Rightarrow> bool" where
  "all_idle [] st = True"
| "all_idle (gp # gps) st =
     (\<not> compute_isMoving (updateGamepad gp st) \<and> all_idle gps (animate gp st))"

text \<open>
  The key code of the digit key \<open>N\<close> is \<^verbatim>\<open>Digit\<close> followed by the decimal numeral of \<open>N\<close>;
  \<open>decimal\<close> writes that numeral.
\<close>

fun decimal :: "nat \<Rightarrow> string" where
  "decimal n =
     (if n < 10 then [char_of (48 + n)]
      else decimal (n div 10) @ [char_of (48 + n mod 10)])"

text \<open>The band in which the pitch is kept.\<close>

definition pitch_clamped :: "game_state \<Rightarrow> bool" where
  "pitch_clamped st = (- pi / 2 \<le> pitch st \<and> pitch st \<le> pi / 2)"

text \<open>The characters \<^verbatim>\<open>0\<close> to \<^verbatim>\<open>9\<close>.\<close>

definition dec_digit :: "char \<Rightarrow> bool" where
  "dec_digit c = (48 \<le> (of_char c :: nat) \<and> (of_char c :: nat) \<le> 57)"

declare chunk_z_loop.simps [simp del] chunk_x_loop.simps [simp del]
  world_cz_loop.simps [simp del] world_cx_loop.simps [simp del]
  buttons_loop.simps [simp del] decimal.simps [simp del]

section \<open>Properties of the height field\<close>

lemma sin_cos_product_bounds: "- 1 \<le> sin a * cos b \<and> sin a * cos b \<le> (1::real)"
proof -
  have "\<bar>sin a * cos b\<bar> = \<bar>sin a\<bar> * \<bar>cos b\<bar>"
    by (simp add: abs_mult)
  also have "\<dots> \<le> 1 * 1"
    by (intro mult_mono) (simp_all add: abs_sin_le_one abs_cos_le_one)
  finally show ?thesis
    by (simp add: abs_le_iff)
qed

lemma octave_sum_bounds:
  fixes p q r :: real
  assumes "- 1 \<le> p \<and> p \<le> 1" and "- 1 \<le> q \<and> q \<le> 1" and "- 1 \<le> r \<and> r \<le> 1"
  shows "- 5.25 \<le> p * 3 + q * 1.5 + r * 0.75 \<and> p * 3 + q * 1.5 + r * 0.75 \<le> 5.25"
  using assms by simp

text \<open>
  Claim C1. The height field is a function of its two arguments alone (it reads and writes
  no state, so evaluating it again at the same pair gives the same value by construction),
  and its value lies in the analytic band from -5.25 to 5.25, the sum of the three octave
  amplitudes 3 + 1.5 + 0.75. The bound is shown for all real arguments, of which the
  integer pairs are the special case the chunk builder uses.
\<close>

theorem noise_bounded:
  "- 5.25 \<le> noise x z \<and> noise x z \<le> 5.25 \<and>
   - 5.25 \<le> noise (of_int i) (of_int k) \<and> noise (of_int i) (of_int k) \<le> 5.25"
proof -
  have bound: "- 5.25 \<le> noise a b \<and> noise a b \<le> 5.25" for a b :: real
  proof -
    have o1: "- 1 \<le> sin (a * 0.1) * cos (b * 0.1) \<and> sin (a * 0.1) * cos (b * 0.1) \<le> 1"
      by (rule sin_cos_product_bounds)
    have o2: "- 1 \<le> sin (a * 0.1 * 2) * cos (b * 0.1 * 2) \<and>
              sin (a * 0.1 * 2) * cos (b * 0.1 * 2) \<le> 1"
      by (rule sin_cos_product_bounds)
    have o3: "- 1 \<le> sin (a * 0.1 * 4) * cos (b * 0.1 * 4) \<and>
              sin (a * 0.1 * 4) * cos (b * 0.1 * 4) \<le> 1"
      by (rule sin_cos_product_bounds)
    have eq: "noise a b =
        sin (a * 0.1) * cos (b * 0.1) * 3 +
        sin (a * 0.1 * 2) * cos (b * 0.1 * 2) * 1.5 +
        sin (a * 0.1 * 4) * cos (b * 0.1 * 4) * 0.75"
      by (simp add: noise_def Let_def)
    show ?thesis
      unfolding eq by (rule octave_sum_bounds [OF o1 o2 o3])
  qed
  show ?thesis
    using bound [of x z] bound [of "of_int i" "of_int k"] by simp
qed

section \<open>Properties of the terrain\<close>

lemma column_geometry_value:
  "column_geometry cx cz x z =
     [(cx * 12 + int x,
       \<lfloor>noise (of_int (cx * 12 + int x)) (of_int (cz * 12 + int z)) + 8\<rfloor>,
       cz * 12 + int z)]"
  by (simp add: column_geometry_def Let_def translate_def blockGeometry_def CHUNK_SIZE_def)

lemma chunk_z_loop_closed:
  "z \<le> CHUNK_SIZE \<Longrightarrow>
   chunk_z_loop cx cz x z gs = gs @ map (column_geometry cx cz x) [z..<CHUNK_SIZE]"
proof (induction cx cz x z gs rule: chunk_z_loop.induct)
  case (1 cx cz x z gs)
  show ?case
  proof (cases "z < CHUNK_SIZE")
    case True
    have "chunk_z_loop cx cz x z gs =
        chunk_z_loop cx cz x (Suc z) (gs @ [column_geometry cx cz x z])"
      using True by (subst chunk_z_loop.simps) simp
    also have "\<dots> =
        (gs @ [column_geometry cx cz x z]) @ map (column_geometry cx cz x) [Suc z..<CHUNK_SIZE]"
      using True "1.IH" by simp
    finally show ?thesis
      using True by (simp add: upt_conv_Cons)
  next
    case False
    with "1.prems" have "z = CHUNK_SIZE" by simp
    then show ?thesis
      by (subst chunk_z_loop.simps) simp
  qed
qed

lemma chunk_x_loop_closed:
  "x \<le> CHUNK_SIZE \<Longrightarrow>
   chunk_x_loop cx cz x gs =
     gs @ concat (map (\<lambda>x. map (column_geometry cx cz x) [0..<CHUNK_SIZE]) [x..<CHUNK_SIZE])"
proof (induction cx cz x gs rule: chunk_x_loop.induct)
  case (1 cx cz x gs)
  show ?case
  proof (cases "x < CHUNK_SIZE")
    case True
    have "chunk_x_loop cx cz x gs = chunk_x_loop cx cz (Suc x) (chunk_z_loop cx cz x 0 gs)"
      using True by (subst chunk_x_loop.simps) simp
    also have "\<dots> = chunk_z_loop cx cz x 0 gs @
        concat (map (\<lambda>x. map (column_geometry cx cz x) [0..<CHUNK_SIZE]) [Suc x..<CHUNK_SIZE])"
      using True "1.IH" by simp
    also have "chunk_z_loop cx cz x 0 gs = gs @ map (column_geometry cx cz x) [0..<CHUNK_SIZE]"
      by (rule chunk_z_loop_closed) simp
    finally show ?thesis
      using True by (simp add: upt_conv_Cons)
  next
    case False
    with "1.prems" have "x = CHUNK_SIZE" by simp
    then show ?thesis
      by (subst chunk_x_loop.simps) simp
  qed
qed

lemma length_grid: "length (concat (map (\<lambda>x. map (f x) [0..<n]) [0..<m])) = m * n"
  by (induction m) simp_all

lemma nth_grid:
  "x < m \<Longrightarrow> z < n \<Longrightarrow>
   concat (map (\<lambda>x. map (f x) [0..<n]) [0..<m]) ! (x * n + z) = f x z"
proof (induction m)
  case 0
  then show ?case by simp
next
  case (Suc m)
  show ?case
  proof (cases "x < m")
    case True
    then have "Suc x * n \<le> m * n"
      by (intro mult_le_mono1) simp
    then have "x * n + z < m * n"
      using Suc.prems(2) by simp
    then show ?thesis
      using Suc.IH [OF True Suc.prems(2)] by (simp add: nth_append length_grid)
  next
    case False
    with Suc.prems have "x = m" by simp
    then show ?thesis
      using Suc.prems(2) by (simp add: nth_append length_grid)
  qed
qed

lemma geometries_closed:
  "chunk_x_loop cx cz 0 [] =
     concat (map (\<lambda>x. map (column_geometry cx cz x) [0..<CHUNK_SIZE]) [0..<CHUNK_SIZE])"
  using chunk_x_loop_closed [of 0 cx cz "[]"] by simp

lemma geometries_length: "length (chunk_x_loop cx cz 0 []) = 144"
  by (simp add: geometries_closed length_grid CHUNK_SIZE_def)

lemma geometries_nth:
  "x < 12 \<Longrightarrow> z < 12 \<Longrightarrow>
   chunk_x_loop cx cz 0 [] ! (x * 12 + z) = column_geometry cx cz x z"
  using nth_grid [of x 12 z 12 "column_geometry cx cz"]
  by (simp add: geometries_closed CHUNK_SIZE_def)

lemma length_concat_singletons:
  "\<forall>g \<in> set gs. length g = 1 \<Longrightarrow> length (concat gs) = length gs"
  by (induction gs) simp_all

lemma geometries_singletons: "\<forall>g \<in> set (chunk_x_loop cx cz 0 []). length g = 1"
  by (auto simp: geometries_closed column_geometry_value)

lemma createMergedChunk_merged:
  "createMergedChunk True cx cz = concat (chunk_x_loop cx cz 0 [])"
  by (simp add: createMergedChunk_def Let_def mergeGeometries_def split: list.splits)

lemma createMergedChunk_merged_length: "length (createMergedChunk True cx cz) = 144"
  using length_concat_singletons [OF geometries_singletons, of cx cz]
  by (simp add: createMergedChunk_merged geometries_length)

lemma geometries_first:
  "\<exists>rest. chunk_x_loop cx cz 0 [] = column_geometry cx cz 0 0 # rest"
proof -
  have "chunk_x_loop cx cz 0 [] \<noteq> []"
    using geometries_length [of cx cz] by auto
  then obtain g rest where eq: "chunk_x_loop cx cz 0 [] = g # rest"
    by (cases "chunk_x_loop cx cz 0 []") auto
  have "chunk_x_loop cx cz 0 [] ! (0 * 12 + 0) = column_geometry cx cz 0 0"
    by (rule geometries_nth) simp_all
  with eq show ?thesis by simp
qed

lemma createMergedChunk_fallback:
  "createMergedChunk False cx cz = column_geometry cx cz 0 0"
  using geometries_first [of cx cz] by (auto simp: createMergedChunk_def Let_def)

lemma world_cz_loop_closed:
  "world_cz_loop m cx cz ms = ms @ map (chunk_mesh m cx) [cz..RENDER_DISTANCE - 1]"
proof (induction m cx cz ms rule: world_cz_loop.induct)
  case (1 m cx cz ms)
  show ?case
  proof (cases "cz < RENDER_DISTANCE")
    case True
    have "world_cz_loop m cx cz ms = world_cz_loop m cx (cz + 1) (ms @ [chunk_mesh m cx cz])"
      using True by (subst world_cz_loop.simps) simp
    also have "\<dots> =
        (ms @ [chunk_mesh m cx cz]) @ map (chunk_mesh m cx) [cz + 1..RENDER_DISTANCE - 1]"
      using "1.IH" [OF True] by simp
    finally show ?thesis
      using True by (simp add: upto_rec1 [of cz "RENDER_DISTANCE - 1"])
  next
    case False
    then show ?thesis
      by (subst world_cz_loop.simps) simp
  qed
qed

lemma world_cx_loop_closed:
  "world_cx_loop m cx ms =
     ms @ concat (map (\<lambda>cx. map (chunk_mesh m cx) [- RENDER_DISTANCE..RENDER_DISTANCE - 1])
                      [cx..RENDER_DISTANCE - 1])"
proof (induction m cx ms rule: world_cx_loop.induct)
  case (1 m cx ms)
  show ?case
  proof (cases "cx < RENDER_DISTANCE")
    case True
    have "world_cx_loop m cx ms =
        world_cx_loop m (cx + 1) (world_cz_loop m cx (- RENDER_DISTANCE) ms)"
      using True by (subst world_cx_loop.simps) simp
    also have "\<dots> = world_cz_loop m cx (- RENDER_DISTANCE) ms @
        concat (map (\<lambda>cx. map (chunk_mesh m cx) [- RENDER_DISTANCE..RENDER_DISTANCE - 1])
                    [cx + 1..RENDER_DISTANCE - 1])"
      using "1.IH" [OF True] by simp
    finally show ?thesis
      using True by (simp add: world_cz_loop_closed upto_rec1 [of cx "RENDER_DISTANCE - 1"])
  next
    case False
    then show ?thesis
      by (subst world_cx_loop.simps) simp
  qed
qed

lemma world_chunks_closed:
  "world_chunks m = [chunk_mesh m cx cz. cx \<leftarrow> [- 3..2], cz \<leftarrow> [- 3..2]]"
  by (simp add: world_chunks_def world_cx_loop_closed RENDER_DISTANCE_def)

lemma length_product_map:
  "length (concat (map (\<lambda>a. map (f a) ys) xs)) = length xs * length ys"
  by (induction xs) simp_all

lemma sum_list_const:
  "\<forall>m \<in> set ms. g m = c \<Longrightarrow> sum_list (map g ms) = length ms * c"
  by (induction ms) simp_all

lemma world_chunks_length: "length (world_chunks m) = 36"
  unfolding world_chunks_closed length_product_map by simp

lemma total_merged: "total_blocks (world_chunks True) = 5184"
proof -
  have "\<forall>m \<in> set (world_chunks True). length (mesh_geometry m) = 144"
    by (auto simp: world_chunks_closed chunk_mesh_def createMergedChunk_merged_length)
  from sum_list_const [OF this] show ?thesis
    unfolding total_blocks_def by (simp add: world_chunks_length)
qed

lemma total_fallback: "total_blocks (world_chunks False) = 36"
proof -
  have "\<forall>m \<in> set (world_chunks False). length (mesh_geometry m) = 1"
    by (auto simp: world_chunks_closed chunk_mesh_def createMergedChunk_fallback
        column_geometry_value)
  from sum_list_const [OF this] show ?thesis
    unfolding total_blocks_def by (simp add: world_chunks_length)
qed

lemma concat_singleton_rows:
  "concat (concat (map (\<lambda>x. map (\<lambda>z. [g x z]) zs) xs)) = concat (map (\<lambda>x. map (g x) zs) xs)"
proof (induction xs)
  case Nil
  then show ?case by simp
next
  case (Cons a xs)
  have "concat (map (\<lambda>z. [g a z]) zs) = map (g a) zs"
    by (induction zs) simp_all
  with Cons show ?case by simp
qed

lemma merged_cubes:
  "createMergedChunk True cx cz =
     concat (map (\<lambda>x. map (\<lambda>z.
         (cx * 12 + int x,
          \<lfloor>noise (of_int (cx * 12 + int x)) (of_int (cz * 12 + int z)) + 8\<rfloor>,
          cz * 12 + int z)) [0..<12]) [0..<12])"
proof -
  have col: "column_geometry cx cz =
      (\<lambda>x z. [(cx * 12 + int x,
                \<lfloor>noise (of_int (cx * 12 + int x)) (of_int (cz * 12 + int z)) + 8\<rfloor>,
                cz * 12 + int z)])"
    by (intro ext) (rule column_geometry_value)
  show ?thesis
    unfolding createMergedChunk_merged geometries_closed col CHUNK_SIZE_def
    by (rule concat_singleton_rows)
qed

lemma merged_nth:
  "x < 12 \<Longrightarrow> z < 12 \<Longrightarrow>
   createMergedChunk True cx cz ! (x * 12 + z) =
     (cx * 12 + int x,
      \<lfloor>noise (of_int (cx * 12 + int x)) (of_int (cz * 12 + int z)) + 8\<rfloor>,
      cz * 12 + int z)"
  unfolding merged_cubes by (rule nth_grid)

text \<open>
  Claim C2, amended. For every chunk coordinate the two loops of the chunk builder push
  exactly CHUNK_SIZE squared, that is 144, geometries, the one for the local column
  \<open>(x, z)\<close> being the unit cube centred at \<open>(cx * 12 + x, floor (noise worldX worldZ + 8),
  cz * 12 + z)\<close>. What the builder returns depends on the merge utility: with it, the
  chunk geometry holds all 144 cubes, each at its centre; without it, as under the import
  of line 2, the chunk geometry is the single cube of local column \<open>(0, 0)\<close>. The world
  loops run \<open>cx\<close> and \<open>cz\<close> over -3, ..., 2 and push 36 meshes, which hold
  36 * 144 = 5184 cubes with the merge utility and 36 cubes without it.
\<close>

theorem chunk_and_world_counts:
  "length (chunk_x_loop cx cz 0 []) = CHUNK_SIZE * CHUNK_SIZE \<and>
   CHUNK_SIZE * CHUNK_SIZE = 144 \<and>
   (\<forall>x<CHUNK_SIZE. \<forall>z<CHUNK_SIZE.
      chunk_x_loop cx cz 0 [] ! (x * CHUNK_SIZE + z) =
        [(cx * 12 + int x,
          \<lfloor>noise (of_int (cx * 12 + int x)) (of_int (cz * 12 + int z)) + 8\<rfloor>,
          cz * 12 + int z)]) \<and>
   length (createMergedChunk m cx cz) = (if m then CHUNK_SIZE * CHUNK_SIZE else 1) \<and>
   (\<forall>x<CHUNK_SIZE. \<forall>z<CHUNK_SIZE.
      createMergedChunk True cx cz ! (x * CHUNK_SIZE + z) =
        (cx * 12 + int x,
         \<lfloor>noise (of_int (cx * 12 + int x)) (of_int (cz * 12 + int z)) + 8\<rfloor>,
         cz * 12 + int z)) \<and>
   createMergedChunk False cx cz =
     [(cx * 12, \<lfloor>noise (of_int (cx * 12)) (of_int (cz * 12)) + 8\<rfloor>, cz * 12)] \<and>
   world_chunks m =
     [\<lparr>mesh_geometry = createMergedChunk m a b, mesh_material = grass\<rparr>.
        a \<leftarrow> [- 3..2], b \<leftarrow> [- 3..2]] \<and>
   length (world_chunks m) = 36 \<and>
   total_blocks (world_chunks m) = (if m then 36 * 144 else 36) \<and>
   36 * 144 = (5184::nat)"
proof -
  have nth: "\<forall>x<CHUNK_SIZE. \<forall>z<CHUNK_SIZE.
      chunk_x_loop cx cz 0 [] ! (x * CHUNK_SIZE + z) =
        [(cx * 12 + int x,
          \<lfloor>noise (of_int (cx * 12 + int x)) (of_int (cz * 12 + int z)) + 8\<rfloor>,
          cz * 12 + int z)]"
    using geometries_nth [of _ _ cx cz]
    by (simp add: CHUNK_SIZE_def column_geometry_value)
  have merged: "\<forall>x<CHUNK_SIZE. \<forall>z<CHUNK_SIZE.
      createMergedChunk True cx cz ! (x * CHUNK_SIZE + z) =
        (cx * 12 + int x,
         \<lfloor>noise (of_int (cx * 12 + int x)) (of_int (cz * 12 + int z)) + 8\<rfloor>,
         cz * 12 + int z)"
    using merged_nth [of _ _ cx cz] by (simp add: CHUNK_SIZE_def)
  have fallback: "createMergedChunk False cx cz =
     [(cx * 12, \<lfloor>noise (of_int (cx * 12)) (of_int (cz * 12)) + 8\<rfloor>, cz * 12)]"
    by (simp add: createMergedChunk_fallback column_geometry_value)
  have result: "length (createMergedChunk m cx cz) = (if m then CHUNK_SIZE * CHUNK_SIZE else 1)"
    using createMergedChunk_merged_length [of cx cz] fallback
    by (cases m) (simp_all add: CHUNK_SIZE_def)
  have mesh: "chunk_mesh m =
      (\<lambda>a b. \<lparr>mesh_geometry = createMergedChunk m a b, mesh_material = grass\<rparr>)"
    by (intro ext) (simp add: chunk_mesh_def)
  have world: "world_chunks m =
     [\<lparr>mesh_geometry = createMergedChunk m a b, mesh_material = grass\<rparr>.
        a \<leftarrow> [- 3..2], b \<leftarrow> [- 3..2]]"
    unfolding world_chunks_closed mesh by (rule refl)
  have total: "total_blocks (world_chunks m) = (if m then 36 * 144 else 36)"
    using total_merged total_fallback by (cases m) simp_all
  have len: "length (chunk_x_loop cx cz 0 []) = CHUNK_SIZE * CHUNK_SIZE"
    and sq: "CHUNK_SIZE * CHUNK_SIZE = 144"
    by (simp_all add: geometries_length CHUNK_SIZE_def)
  have prod: "36 * 144 = (5184::nat)"
    by simp
  show ?thesis
    using nth merged fallback result world total len sq prod world_chunks_length [of m]
    by blast
qed

theorem chunk_and_world_counts_witness:
  "(0::nat) < CHUNK_SIZE \<and>
   chunk_x_loop 0 0 0 [] ! 0 = [(0, 8, 0)] \<and>
   createMergedChunk True 0 0 ! 0 = (0, 8, 0) \<and>
   length (createMergedChunk True 0 0) = 144 \<and>
   length (createMergedChunk False 0 0) = 1 \<and>
   total_blocks (world_chunks True) = 5184 \<and>
   total_blocks (world_chunks False) = 36"
proof -
  note at_true = chunk_and_world_counts [of 0 0 True]
  note at_false = chunk_and_world_counts [of 0 0 False]
  have "\<forall>x<CHUNK_SIZE. \<forall>z<CHUNK_SIZE.
      chunk_x_loop 0 0 0 [] ! (x * CHUNK_SIZE + z) =
        [(0 * 12 + int x,
          \<lfloor>noise (of_int (0 * 12 + int x)) (of_int (0 * 12 + int z)) + 8\<rfloor>,
          0 * 12 + int z)]"
    using at_true by blast
  then have "(0::nat) < CHUNK_SIZE \<longrightarrow> chunk_x_loop 0 0 0 [] ! (0 * CHUNK_SIZE + 0) =
        [(0 * 12 + int 0, \<lfloor>noise (of_int (0 * 12 + int 0)) (of_int (0 * 12 + int 0)) + 8\<rfloor>,
          0 * 12 + int 0)]"
    by blast
  then have built: "chunk_x_loop 0 0 0 [] ! 0 = [(0, 8, 0)]"
    by (simp add: CHUNK_SIZE_def noise_def)
  have "\<forall>x<CHUNK_SIZE. \<forall>z<CHUNK_SIZE.
      createMergedChunk True 0 0 ! (x * CHUNK_SIZE + z) =
        (0 * 12 + int x,
         \<lfloor>noise (of_int (0 * 12 + int x)) (of_int (0 * 12 + int z)) + 8\<rfloor>,
         0 * 12 + int z)"
    using at_true by blast
  then have "(0::nat) < CHUNK_SIZE \<longrightarrow> createMergedChunk True 0 0 ! (0 * CHUNK_SIZE + 0) =
        (0 * 12 + int 0, \<lfloor>noise (of_int (0 * 12 + int 0)) (of_int (0 * 12 + int 0)) + 8\<rfloor>,
         0 * 12 + int 0)"
    by blast
  then have held_cube: "createMergedChunk True 0 0 ! 0 = (0, 8, 0)"
    by (simp add: CHUNK_SIZE_def noise_def)
  have "length (createMergedChunk True 0 0) = (if True then CHUNK_SIZE * CHUNK_SIZE else 1)"
    and "length (createMergedChunk False 0 0) = (if False then CHUNK_SIZE * CHUNK_SIZE else 1)"
    using at_true at_false by blast+
  then have lens: "length (createMergedChunk True 0 0) = 144"
    "length (createMergedChunk False 0 0) = 1"
    by (simp_all add: CHUNK_SIZE_def)
  have "total_blocks (world_chunks True) = (if True then 36 * 144 else 36)"
    and "total_blocks (world_chunks False) = (if False then 36 * 144 else 36)"
    using at_true at_false by blast+
  then have totals: "total_blocks (world_chunks True) = 5184"
    "total_blocks (world_chunks False) = 36"
    by simp_all
  show ?thesis
    using built held_cube lens totals by (simp add: CHUNK_SIZE_def)
qed

text \<open>
  The claim without the condition on the merge utility does not hold: with the utility
  absent the builder run for chunk \<open>(0, 0)\<close> returns the one cube at \<open>(0, 8, 0)\<close>, not
  144 cubes, and the meshes of the world hold 36 cubes, not 5184.
\<close>

theorem chunk_and_world_counts_counterexample:
  "createMergedChunk False 0 0 = [(0, 8, 0)] \<and>
   length (createMergedChunk False 0 0) \<noteq> CHUNK_SIZE * CHUNK_SIZE \<and>
   total_blocks (world_chunks False) = 36 \<and>
   total_blocks (world_chunks False) \<noteq> 36 * 144"
  by (simp add: createMergedChunk_fallback column_geometry_value noise_def total_fallback
      CHUNK_SIZE_def)

text \<open>
  Claim C9. With the merge utility absent the chunk builder has no failing path: it
  returns the geometry of the first block it built, the cube of local column \<open>(0, 0)\<close>,
  as the geometry of the whole chunk, and the world loops still push a mesh for each of
  the 36 chunks, each holding that one cube.
\<close>

theorem merge_fallback_is_soft:
  "createMergedChunk False cx cz =
     [(cx * 12, \<lfloor>noise (of_int (cx * 12)) (of_int (cz * 12)) + 8\<rfloor>, cz * 12)] \<and>
   (\<exists>rest. chunk_x_loop cx cz 0 [] = createMergedChunk False cx cz # rest) \<and>
   world_chunks False =
     [\<lparr>mesh_geometry = [(a * 12, \<lfloor>noise (of_int (a * 12)) (of_int (b * 12)) + 8\<rfloor>, b * 12)],
       mesh_material = grass\<rparr>. a \<leftarrow> [- 3..2], b \<leftarrow> [- 3..2]] \<and>
   length (world_chunks False) = 36 \<and>
   total_blocks (world_chunks False) = 36"
proof -
  have one: "createMergedChunk False a b =
     [(a * 12, \<lfloor>noise (of_int (a * 12)) (of_int (b * 12)) + 8\<rfloor>, b * 12)]" for a b
    by (simp add: createMergedChunk_fallback column_geometry_value)
  have first: "\<exists>rest. chunk_x_loop cx cz 0 [] = createMergedChunk False cx cz # rest"
    using geometries_first [of cx cz] by (simp add: createMergedChunk_fallback)
  have mesh: "chunk_mesh False =
      (\<lambda>a b. \<lparr>mesh_geometry =
                [(a * 12, \<lfloor>noise (of_int (a * 12)) (of_int (b * 12)) + 8\<rfloor>, b * 12)],
              mesh_material = grass\<rparr>)"
    by (intro ext) (simp add: chunk_mesh_def one)
  have world: "world_chunks False =
     [\<lparr>mesh_geometry = [(a * 12, \<lfloor>noise (of_int (a * 12)) (of_int (b * 12)) + 8\<rfloor>, b * 12)],
       mesh_material = grass\<rparr>. a \<leftarrow> [- 3..2], b \<leftarrow> [- 3..2]]"
    unfolding world_chunks_closed mesh by (rule refl)
  show ?thesis
    using one [of cx cz] first world world_chunks_length [of False] total_fallback
    by blast
qed

section \<open>Properties of the look input\<close>

lemma clamp_between:
  fixes lo hi p :: real
  assumes "lo \<le> hi"
  shows "lo \<le> max lo (min hi p) \<and> max lo (min hi p) \<le> hi"
  using assms by (auto simp: max_def min_def)

lemma clamp_in_band:
  "- pi / 2 \<le> max (- pi / 2) (min (pi / 2) p) \<and> max (- pi / 2) (min (pi / 2) p) \<le> pi / 2"
proof (rule clamp_between)
  show "- pi / 2 \<le> pi / 2"
    using pi_ge_zero by simp
qed

lemma pitch_handleKeyDown [simp]: "pitch (handleKeyDown code st) = pitch st"
  by (simp add: handleKeyDown_def Let_def split: option.splits)

lemma pitch_handleKeyUp [simp]: "pitch (handleKeyUp code st) = pitch st"
  by (simp add: handleKeyUp_def)

lemma pitch_handleMouseMove:
  "pitch (handleMouseMove locked mx my st) =
     (if locked then max (- pi / 2) (min (pi / 2) (pitch st - my * 0.002)) else pitch st)"
  by (simp add: handleMouseMove_def Let_def)

lemma pitch_updateGamepad:
  "pitch (updateGamepad gp st) =
     (case gp of None \<Rightarrow> pitch st
      | Some g \<Rightarrow> max (- pi / 2) (min (pi / 2) (pitch st - dead_zone (axes g) 3 * 0.05)))"
  by (simp add: updateGamepad_def Let_def split: option.splits)

lemma pitch_animate [simp]: "pitch (animate gp st) = pitch (updateGamepad gp st)"
  by (simp add: animate_def Let_def)

lemma pitch_clamped_dispatch:
  "pitch_clamped st \<Longrightarrow> pitch_clamped (dispatch locked st ev)"
proof (cases ev)
  case (MouseMove mx my)
  assume "pitch_clamped st"
  then show ?thesis
    using MouseMove clamp_in_band [of "pitch st - my * 0.002"]
    by (simp add: pitch_clamped_def pitch_handleMouseMove)
next
  case (Frame gp)
  assume "pitch_clamped st"
  then show ?thesis
  proof (cases gp)
    case None
    with Frame \<open>pitch_clamped st\<close> show ?thesis
      by (simp add: pitch_clamped_def pitch_updateGamepad)
  next
    case (Some g)
    with Frame show ?thesis
      using clamp_in_band [of "pitch st - dead_zone (axes g) 3 * 0.05"]
      by (simp add: pitch_clamped_def pitch_updateGamepad)
  qed
qed (simp_all add: pitch_clamped_def)

lemma pitch_clamped_run:
  "pitch_clamped st \<Longrightarrow> pitch_clamped (run locked evs st)"
  unfolding run_def
  by (induction evs arbitrary: st) (simp_all add: pitch_clamped_dispatch)

lemma pitch_clamped_initial: "pitch_clamped initial_state"
  using pi_ge_zero by (simp add: pitch_clamped_def initial_state_def)

text \<open>
  Claim C3. The pitch lies between \<open>- pi / 2\<close> and \<open>pi / 2\<close> after every run of callbacks
  from the start of the effect, whatever the events and their deltas are; a mouse move
  under pointer lock and a gamepad poll, the two operations that write the pitch, leave it
  in that band from any state, and every callback keeps it there.
\<close>

theorem pitch_always_clamped:
  "pitch_clamped (run locked evs initial_state) \<and>
   pitch_clamped (handleMouseMove True mx my st) \<and>
   pitch_clamped (updateGamepad (Some g) st) \<and>
   pitch_clamped (animate (Some g) st) \<and>
   (pitch_clamped st \<longrightarrow> pitch_clamped (run locked evs st))"
  using clamp_in_band [of "pitch st - my * 0.002"]
    clamp_in_band [of "pitch st - dead_zone (axes g) 3 * 0.05"]
  by (simp add: pitch_clamped_run pitch_clamped_initial)
     (simp add: pitch_clamped_def pitch_handleMouseMove pitch_updateGamepad)

theorem pitch_always_clamped_witness:
  "pitch_clamped initial_state \<and>
   pitch_clamped (run True [MouseMove 0 2000, Frame None, MouseMove 5 (- 9000)] initial_state)"
proof -
  have start: "pitch_clamped initial_state"
    by (simp add: pitch_clamped_def initial_state_def)
  show ?thesis
    using start
      pitch_always_clamped
        [where st = initial_state and locked = True
           and evs = "[MouseMove 0 2000, Frame None, MouseMove 5 (- 9000)]"]
    by simp
qed

text \<open>
  Claim C5. Without pointer lock a mouse move returns the state as it was, so yaw and
  pitch do not change; under pointer lock a mouse move with \<open>movementX = mx\<close> changes the
  yaw by \<open>- mx * 0.002\<close>.
\<close>

theorem mouse_look_gated:
  "handleMouseMove False mx my st = st \<and>
   yaw (handleMouseMove False mx my st) = yaw st \<and>
   pitch (handleMouseMove False mx my st) = pitch st \<and>
   yaw (handleMouseMove True mx my st) - yaw st = - mx * 0.002"
  by (simp add: handleMouseMove_def Let_def)

section \<open>Properties of the frame tick\<close>

lemma vec_y_compute_velocity [simp]: "vec_y (compute_velocity dir a) = 0"
  by (simp add: compute_velocity_def Let_def addScaledVector_def set3_def)

lemma camera_position_updateGamepad [simp]:
  "camera_position (updateGamepad gp st) = camera_position st"
  by (simp add: updateGamepad_def Let_def split: option.splits)

lemma camera_position_animate:
  "camera_position (animate gp st) =
     add3 (camera_position st)
       (compute_velocity (normalize3 (compute_direction (updateGamepad gp st)))
          (yaw (updateGamepad gp st)))"
  by (simp add: animate_def Let_def)

lemma altitude_animate: "vec_y (camera_position (animate gp st)) = vec_y (camera_position st)"
  by (simp add: camera_position_animate add3_def)

lemma altitude_ticks: "vec_y (camera_position (ticks gps st)) = vec_y (camera_position st)"
  by (induction gps arbitrary: st) (simp_all add: altitude_animate)

text \<open>
  Claim C6. The velocity built from the forward and right vectors has y component zero for
  every direction and every yaw, so the displacement of a tick has y component zero and
  the altitude of the camera is the same after one tick and after any number of ticks.
\<close>

theorem tick_keeps_altitude:
  "vec_y (compute_velocity dir a) = 0 \<and>
   vec_y (displacement gp st) = 0 \<and>
   vec_y (camera_position (animate gp st)) = vec_y (camera_position st) \<and>
   vec_y (camera_position (ticks gps st)) = vec_y (camera_position st)"
  by (simp add: displacement_def sub3_def altitude_animate altitude_ticks)

lemma normalize3_zero: "normalize3 (set3 0 0 0) = set3 0 0 0"
  by (simp add: normalize3_def divideScalar_def multiplyScalar_def length3_def set3_def)

lemma held_updateGamepad [simp]: "held (updateGamepad gp st) k = held st k"
  by (simp add: held_def updateGamepad_def Let_def split: option.splits)

lemma idle_direction:
  assumes "\<not> compute_isMoving s"
  shows "compute_direction s = set3 0 0 0"
proof -
  from assms have k: "\<not> held s ''KeyW''" "\<not> held s ''KeyS''" "\<not> held s ''KeyA''" "\<not> held s ''KeyD''"
    and x: "\<bar>stick_x (leftStick s)\<bar> \<le> 0.1" and y: "\<bar>stick_y (leftStick s)\<bar> \<le> 0.1"
    by (simp_all add: compute_isMoving_def)
  from x have x': "\<not> stick_x (leftStick s) < - 0.1" "\<not> stick_x (leftStick s) > 0.1" by linarith+
  from y have y': "\<not> stick_y (leftStick s) < - 0.1" "\<not> stick_y (leftStick s) > 0.1" by linarith+
  show ?thesis
    using k x' y' by (simp add: compute_direction_def Let_def)
qed

lemma zero_velocity: "compute_velocity (set3 0 0 0) a = set3 0 0 0"
  by (simp add: compute_velocity_def Let_def addScaledVector_def set3_def)

lemma add3_zero: "add3 p (set3 0 0 0) = p"
  by (simp add: add3_def set3_def)

text \<open>
  Claim C10. In a tick with none of the keys W, A, S, D held and both cached left-stick
  axes within the dead zone of 0.1, the direction is the zero vector, normalizing it
  gives the zero vector again (the length zero is replaced by one before dividing), the
  velocity is zero and the camera position is unchanged.
\<close>

theorem idle_tick_keeps_position:
  assumes "\<not> held st ''KeyW''" and "\<not> held st ''KeyS''"
    and "\<not> held st ''KeyA''" and "\<not> held st ''KeyD''"
    and "\<bar>stick_x (leftStick (updateGamepad gp st))\<bar> \<le> 0.1"
    and "\<bar>stick_y (leftStick (updateGamepad gp st))\<bar> \<le> 0.1"
  shows "compute_direction (updateGamepad gp st) = set3 0 0 0 \<and>
         normalize3 (compute_direction (updateGamepad gp st)) = set3 0 0 0 \<and>
         velocity (animate gp st) = set3 0 0 0 \<and>
         camera_position (animate gp st) = camera_position st"
proof -
  have "\<not> compute_isMoving (updateGamepad gp st)"
    using assms by (simp add: compute_isMoving_def)
  then have d: "compute_direction (updateGamepad gp st) = set3 0 0 0"
    by (rule idle_direction)
  have v: "velocity (animate gp st) = set3 0 0 0"
    by (simp add: animate_def Let_def d normalize3_zero zero_velocity)
  show ?thesis
    by (simp add: d v normalize3_zero camera_position_animate zero_velocity add3_zero)
qed


theorem idle_tick_keeps_position_witness:
  "\<not> held initial_state ''KeyW'' \<and>
   \<bar>stick_x (leftStick (updateGamepad
        (Some \<lparr>axes = [0.05, - 0.05, 1, 1], pressed = []\<rparr>) initial_state))\<bar> \<le> 0.1 \<and>
   camera_position (animate (Some \<lparr>axes = [0.05, - 0.05, 1, 1], pressed = []\<rparr>) initial_state) =
     set3 8 15 8"
proof -
  let ?gp = "Some \<lparr>axes = [0.05, - 0.05, 1, 1], pressed = []\<rparr>"
  have k: "\<not> held initial_state ''KeyW''" "\<not> held initial_state ''KeyS''"
    "\<not> held initial_state ''KeyA''" "\<not> held initial_state ''KeyD''"
    by (simp_all add: held_def initial_state_def)
  have x: "\<bar>stick_x (leftStick (updateGamepad ?gp initial_state))\<bar> \<le> 0.1"
    by (simp add: updateGamepad_def Let_def dead_zone_def)
  have y: "\<bar>stick_y (leftStick (updateGamepad ?gp initial_state))\<bar> \<le> 0.1"
    by (simp add: updateGamepad_def Let_def dead_zone_def)
  have "camera_position (animate ?gp initial_state) = camera_position initial_state"
    using idle_tick_keeps_position [OF k x y] by blast
  then show ?thesis
    using k(1) x by (simp add: initial_state_def)
qed

lemma length3_multiplyScalar: "length3 (multiplyScalar v s) = \<bar>s\<bar> * length3 v"
proof -
  have "vec_x v * s * (vec_x v * s) + vec_y v * s * (vec_y v * s) + vec_z v * s * (vec_z v * s) =
      s\<^sup>2 * (vec_x v * vec_x v + vec_y v * vec_y v + vec_z v * vec_z v)"
    by (simp add: power2_eq_square algebra_simps)
  then show ?thesis
    by (simp add: length3_def multiplyScalar_def real_sqrt_mult)
qed

lemma length3_nonneg: "0 \<le> length3 v"
  by (simp add: length3_def)

lemma length3_normalize3:
  assumes "length3 v \<noteq> 0"
  shows "length3 (normalize3 v) = 1"
proof -
  have pos: "0 < length3 v"
    using assms length3_nonneg [of v] by linarith
  have "length3 (normalize3 v) = \<bar>1 / length3 v\<bar> * length3 v"
    using assms by (simp add: normalize3_def divideScalar_def length3_multiplyScalar)
  also have "\<dots> = 1"
    using pos by simp
  finally show ?thesis .
qed

lemma vec_y_normalize3: "vec_y v = 0 \<Longrightarrow> vec_y (normalize3 v) = 0"
  by (simp add: normalize3_def divideScalar_def multiplyScalar_def)

lemma sin_quarter_turn: "sin (a + pi / 2) = cos a"
  by (simp add: sin_add)

lemma cos_quarter_turn: "cos (a + pi / 2) = - sin a"
  by (simp add: cos_add)

lemma rotation_keeps_norm:
  fixes s c p q k :: real
  assumes "s\<^sup>2 + c\<^sup>2 = 1"
  shows "(s * (- q * k) + c * (p * k)) * (s * (- q * k) + c * (p * k)) +
         (c * (- q * k) + (- s) * (p * k)) * (c * (- q * k) + (- s) * (p * k)) =
         k\<^sup>2 * (p * p + q * q)"
proof -
  have "(s * (- q * k) + c * (p * k)) * (s * (- q * k) + c * (p * k)) +
         (c * (- q * k) + (- s) * (p * k)) * (c * (- q * k) + (- s) * (p * k)) =
        k\<^sup>2 * (p * p + q * q) * (s\<^sup>2 + c\<^sup>2)"
    by (simp add: power2_eq_square algebra_simps)
  then show ?thesis
    using assms by simp
qed

lemma length3_compute_velocity:
  assumes "vec_y d = 0"
  shows "length3 (compute_velocity d a) = 0.15 * length3 d"
proof -
  have vx: "vec_x (compute_velocity d a) = sin a * (- vec_z d * 0.15) + cos a * (vec_x d * 0.15)"
    by (simp add: compute_velocity_def Let_def addScaledVector_def set3_def sin_quarter_turn)
  have vz: "vec_z (compute_velocity d a) = cos a * (- vec_z d * 0.15) + (- sin a) * (vec_x d * 0.15)"
    by (simp add: compute_velocity_def Let_def addScaledVector_def set3_def cos_quarter_turn)
  have vy: "vec_y (compute_velocity d a) = 0"
    by simp
  have "length3 (compute_velocity d a) = sqrt (0.15\<^sup>2 * (vec_x d * vec_x d + vec_z d * vec_z d))"
    unfolding length3_def vx vz vy
    using rotation_keeps_norm [OF sin_cos_squared_add, of a "vec_z d" "0.15" "vec_x d"]
    by simp
  also have "\<dots> = 0.15 * length3 d"
    using assms by (simp add: length3_def real_sqrt_mult)
  finally show ?thesis .
qed

lemma sub3_add3: "sub3 (add3 p v) p = v"
  by (simp add: sub3_def add3_def)

lemma displacement_eq:
  "displacement gp st =
     compute_velocity (normalize3 (compute_direction (updateGamepad gp st)))
       (yaw (updateGamepad gp st))"
  by (simp add: displacement_def camera_position_animate sub3_add3)

lemma vec_y_compute_direction [simp]: "vec_y (compute_direction s) = 0"
  by (simp add: compute_direction_def Let_def set3_def)

lemma length3_eq_0_iff: "length3 v = 0 \<longleftrightarrow> vec_x v = 0 \<and> vec_y v = 0 \<and> vec_z v = 0"
proof -
  have "vec_x v * vec_x v + vec_y v * vec_y v + vec_z v * vec_z v = 0 \<longleftrightarrow>
        vec_x v = 0 \<and> vec_y v = 0 \<and> vec_z v = 0"
    using sum_power2_eq_zero_iff [of "vec_x v" "vec_y v"]
      sum_power2_eq_zero_iff [of "sqrt ((vec_x v)\<^sup>2 + (vec_y v)\<^sup>2)" "vec_z v"]
    by (auto simp: power2_eq_square add_nonneg_eq_0_iff)
  then show ?thesis
    by (simp add: length3_def)
qed

lemma speed_when_direction_nonzero:
  assumes "vec_x (compute_direction (updateGamepad gp st)) \<noteq> 0 \<or>
           vec_z (compute_direction (updateGamepad gp st)) \<noteq> 0"
  shows "length3 (displacement gp st) = 0.15"
proof -
  let ?d = "compute_direction (updateGamepad gp st)"
  have "length3 ?d \<noteq> 0"
    using assms by (auto simp: length3_eq_0_iff)
  then have "length3 (normalize3 ?d) = 1"
    by (rule length3_normalize3)
  moreover have "vec_y (normalize3 ?d) = 0"
    by (simp add: vec_y_normalize3)
  ultimately show ?thesis
    by (simp add: displacement_eq length3_compute_velocity)
qed

text \<open>
  Claim C4. In a tick whose direction has both a left/right and a forward/back component
  (such as forward and right together) the camera moves by a vector of the same length as
  in a tick whose direction has exactly one of them, and that length is the speed 0.15:
  the direction is brought to length one before it is scaled.
\<close>

theorem diagonal_speed_equals_axis_speed:
  assumes diagonal:
      "vec_x (compute_direction (updateGamepad gp st)) \<noteq> 0 \<and>
       vec_z (compute_direction (updateGamepad gp st)) \<noteq> 0"
    and axis_aligned:
      "(vec_x (compute_direction (updateGamepad gp' st')) \<noteq> 0) \<noteq>
       (vec_z (compute_direction (updateGamepad gp' st')) \<noteq> 0)"
  shows "length3 (displacement gp st) = length3 (displacement gp' st') \<and>
         length3 (displacement gp st) = 0.15 \<and>
         length3 (normalize3 (compute_direction (updateGamepad gp st))) = 1"
proof -
  have a: "length3 (displacement gp st) = 0.15"
    using diagonal by (intro speed_when_direction_nonzero) simp
  have b: "length3 (displacement gp' st') = 0.15"
    using axis_aligned by (intro speed_when_direction_nonzero) auto
  have "length3 (compute_direction (updateGamepad gp st)) \<noteq> 0"
    using diagonal by (auto simp: length3_eq_0_iff)
  then have c: "length3 (normalize3 (compute_direction (updateGamepad gp st))) = 1"
    by (rule length3_normalize3)
  show ?thesis
    using a b c by simp
qed


theorem diagonal_speed_equals_axis_speed_witness:
  "vec_x (compute_direction (updateGamepad None
      (initial_state\<lparr>keys := [''KeyW'' \<mapsto> True, ''KeyD'' \<mapsto> True]\<rparr>))) = 1 \<and>
   vec_z (compute_direction (updateGamepad None
      (initial_state\<lparr>keys := [''KeyW'' \<mapsto> True, ''KeyD'' \<mapsto> True]\<rparr>))) = - 1 \<and>
   vec_x (compute_direction (updateGamepad None
      (initial_state\<lparr>keys := [''KeyW'' \<mapsto> True]\<rparr>))) = 0 \<and>
   vec_z (compute_direction (updateGamepad None
      (initial_state\<lparr>keys := [''KeyW'' \<mapsto> True]\<rparr>))) = - 1 \<and>
   length3 (displacement None
      (initial_state\<lparr>keys := [''KeyW'' \<mapsto> True, ''KeyD'' \<mapsto> True]\<rparr>)) =
   length3 (displacement None (initial_state\<lparr>keys := [''KeyW'' \<mapsto> True]\<rparr>))"
proof -
  let ?wd = "initial_state\<lparr>keys := [''KeyW'' \<mapsto> True, ''KeyD'' \<mapsto> True]\<rparr>"
  let ?w = "initial_state\<lparr>keys := [''KeyW'' \<mapsto> True]\<rparr>"
  have dx: "vec_x (compute_direction (updateGamepad None ?wd)) = 1"
    and dz: "vec_z (compute_direction (updateGamepad None ?wd)) = - 1"
    and ax: "vec_x (compute_direction (updateGamepad None ?w)) = 0"
    and az: "vec_z (compute_direction (updateGamepad None ?w)) = - 1"
    by (simp_all add: compute_direction_def Let_def updateGamepad_def held_def
        initial_state_def set3_def)
  have diagonal: "vec_x (compute_direction (updateGamepad None ?wd)) \<noteq> 0 \<and>
      vec_z (compute_direction (updateGamepad None ?wd)) \<noteq> 0"
    by (simp add: dx dz)
  have axis_aligned: "(vec_x (compute_direction (updateGamepad None ?w)) \<noteq> 0) \<noteq>
      (vec_z (compute_direction (updateGamepad None ?w)) \<noteq> 0)"
    by (simp add: ax az)
  show ?thesis
    using diagonal_speed_equals_axis_speed [OF diagonal axis_aligned] dx dz ax az
    by blast
qed

lemma armSwingSpeed_animate:
  "armSwingSpeed (animate gp st) =
     (if compute_isMoving (updateGamepad gp st) then 0.15 else armSwingSpeed (updateGamepad gp st) * 0.9)"
  by (simp add: animate_def Let_def)

lemma armSwingSpeed_updateGamepad [simp]:
  "armSwingSpeed (updateGamepad gp st) = armSwingSpeed st"
  by (simp add: updateGamepad_def Let_def split: option.splits)

lemma idle_decay:
  "all_idle gps st \<Longrightarrow> armSwingSpeed (ticks gps st) = armSwingSpeed st * 0.9 ^ length gps"
  by (induction gps arbitrary: st) (simp_all add: armSwingSpeed_animate)

lemma held_animate [simp]: "held (animate gp st) k = held st k"
  by (simp add: held_def animate_def Let_def updateGamepad_def split: option.splits)

lemma leftStick_animate [simp]: "leftStick (animate gp st) = leftStick (updateGamepad gp st)"
  by (simp add: animate_def Let_def)

lemma leftStick_updateGamepad_None [simp]: "leftStick (updateGamepad None st) = leftStick st"
  by (simp add: updateGamepad_def)

text \<open>
  Claim C8. A tick in which the player moves sets the swing speed to 0.15. Over \<open>n\<close>
  consecutive ticks in which the player does not move, a swing speed \<open>S\<close> becomes
  \<open>S * 0.9 ^ n\<close>, which is positive whenever \<open>S\<close> is.
\<close>

theorem arm_swing_speed:
  "(compute_isMoving (updateGamepad gp st) \<longrightarrow> armSwingSpeed (animate gp st) = 0.15) \<and>
   (all_idle gps st' \<longrightarrow>
      armSwingSpeed (ticks gps st') = armSwingSpeed st' * 0.9 ^ length gps \<and>
      (0 < armSwingSpeed st' \<longrightarrow> 0 < armSwingSpeed (ticks gps st')))"
  by (simp add: armSwingSpeed_animate idle_decay)

theorem arm_swing_speed_witness:
  "compute_isMoving (updateGamepad (Some \<lparr>axes = [1, 0, 0, 0], pressed = []\<rparr>) initial_state) \<and>
   armSwingSpeed (animate (Some \<lparr>axes = [1, 0, 0, 0], pressed = []\<rparr>) initial_state) = 0.15 \<and>
   all_idle [None, None] (initial_state\<lparr>armSwingSpeed := 1\<rparr>) \<and>
   armSwingSpeed (ticks [None, None] (initial_state\<lparr>armSwingSpeed := 1\<rparr>)) = 0.81 \<and>
   0 < armSwingSpeed (ticks [None, None] (initial_state\<lparr>armSwingSpeed := 1\<rparr>))"
proof -
  let ?gp = "Some \<lparr>axes = [1, 0, 0, 0], pressed = []\<rparr>"
  let ?s = "initial_state\<lparr>armSwingSpeed := 1\<rparr>"
  have moving: "compute_isMoving (updateGamepad ?gp initial_state)"
    by (simp add: compute_isMoving_def updateGamepad_def Let_def dead_zone_def)
  have idle: "all_idle [None, None] ?s"
    by (simp add: compute_isMoving_def) (simp add: held_def initial_state_def)
  have speed: "armSwingSpeed ?s = 1"
    by simp
  show ?thesis
    using moving idle speed
      arm_swing_speed [where gp = ?gp and st = initial_state and gps = "[None, None]" and st' = ?s]
    by (simp add: power2_eq_square)
qed

section \<open>Properties of the hotbar keys\<close>

lemma dec_digit_char_of: "d < (10::nat) \<Longrightarrow> dec_digit (char_of (48 + d))"
  by (simp add: dec_digit_def)

lemma digit_value_char_of: "d < (10::nat) \<Longrightarrow> digit_value (char_of (48 + d)) = Some d"
  by (simp add: digit_value_def Let_def)

lemma decimal_digits: "\<forall>c \<in> set (decimal n). dec_digit c"
proof (induction n rule: decimal.induct)
  case (1 n)
  show ?case
  proof (cases "n < 10")
    case True
    then show ?thesis
      by (subst decimal.simps) (simp add: dec_digit_char_of)
  next
    case False
    then show ?thesis
      using "1.IH" by (subst decimal.simps) (simp add: dec_digit_char_of)
  qed
qed

lemma decimal_nonempty: "decimal n \<noteq> []"
  by (subst decimal.simps) simp

lemma dec_digit_radix: "dec_digit c \<Longrightarrow> is_radix_digit 10 c"
  by (auto simp: dec_digit_def is_radix_digit_def digit_value_def Let_def)

lemma dec_digit_not_space: "dec_digit c \<Longrightarrow> \<not> is_white_space c"
  by (auto simp: dec_digit_def is_white_space_def)

lemma dec_digit_not_symbol:
  "dec_digit c \<Longrightarrow> c \<noteq> CHR ''-'' \<and> c \<noteq> CHR ''+'' \<and> c \<noteq> CHR ''x'' \<and> c \<noteq> CHR ''X''"
  by (auto simp: dec_digit_def)

lemma digits_value_snoc:
  "digits_value r (zs @ [c]) =
     digits_value r zs * r + (case digit_value c of None \<Rightarrow> 0 | Some d \<Rightarrow> d)"
  by (simp add: digits_value_def)

lemma digits_value_decimal: "digits_value 10 (decimal n) = n"
proof (induction n rule: decimal.induct)
  case (1 n)
  show ?case
  proof (cases "n < 10")
    case True
    then show ?thesis
      by (subst decimal.simps) (simp add: digits_value_def digit_value_char_of)
  next
    case False
    then have "digits_value 10 (decimal (n div 10)) = n div 10"
      using "1.IH" by simp
    then show ?thesis
      using False
      by (subst decimal.simps) (simp add: digits_value_snoc digit_value_char_of)
  qed
qed

lemma no_hex_prefix:
  assumes "s \<noteq> []" and "\<forall>c \<in> set s. dec_digit c"
  shows "(take 2 s = ''0x'' \<or> take 2 s = ''0X'') = False"
proof -
  from assms(1) obtain c cs where s: "s = c # cs"
    by (cases s) auto
  show ?thesis
  proof (cases cs)
    case Nil
    with s show ?thesis by simp
  next
    case (Cons c' cs')
    then have "dec_digit c'"
      using assms(2) s by simp
    then show ?thesis
      using s Cons dec_digit_not_symbol [of c'] by auto
  qed
qed

lemma parseInt_digits:
  assumes "s \<noteq> []" and "\<forall>c \<in> set s. dec_digit c"
  shows "parseInt s = Some (int (digits_value 10 s))"
proof -
  from assms(1) obtain c cs where s: "s = c # cs"
    by (cases s) auto
  have c: "dec_digit c"
    using assms(2) s by simp
  have ws: "dropWhile is_white_space s = s"
    using c s by (simp add: dec_digit_not_space)
  have sign: "take 1 s \<noteq> ''-''" "take 1 s \<noteq> ''+''"
    using c s dec_digit_not_symbol [of c] by auto
  have sg: "(if take 1 s = ''-'' then - 1 else 1 :: int) = 1"
    using sign by simp
  have s1: "(if take 1 s = ''+'' \<or> take 1 s = ''-'' then drop 1 s else s) = s"
    using sign by simp
  have hx: "(take 2 s = ''0x'' \<or> take 2 s = ''0X'') = False"
    using assms by (rule no_hex_prefix)
  have tw: "takeWhile (is_radix_digit 10) s = s"
    using assms(2) by (simp add: dec_digit_radix)
  have "parseInt s =
      (if takeWhile (is_radix_digit 10) s = [] then None
       else Some (1 * int (digits_value 10 (takeWhile (is_radix_digit 10) s))))"
    unfolding parseInt_def Let_def ws sg s1 hx if_False ..
  then show ?thesis
    unfolding tw using assms(1) by simp
qed

lemma parseInt_minus_digits:
  assumes "s \<noteq> []" and "\<forall>c \<in> set s. dec_digit c"
  shows "parseInt (CHR ''-'' # s) = Some (- int (digits_value 10 s))"
proof -
  have ws: "dropWhile is_white_space (CHR ''-'' # s) = CHR ''-'' # s"
    by (simp add: is_white_space_def)
  have sg: "(if take 1 (CHR ''-'' # s) = ''-'' then - 1 else 1 :: int) = - 1"
    by simp
  have s1: "(if take 1 (CHR ''-'' # s) = ''+'' \<or> take 1 (CHR ''-'' # s) = ''-''
             then drop 1 (CHR ''-'' # s) else CHR ''-'' # s) = s"
    by simp
  have hx: "(take 2 s = ''0x'' \<or> take 2 s = ''0X'') = False"
    using assms by (rule no_hex_prefix)
  have tw: "takeWhile (is_radix_digit 10) s = s"
    using assms(2) by (simp add: dec_digit_radix)
  have "parseInt (CHR ''-'' # s) =
      (if takeWhile (is_radix_digit 10) s = [] then None
       else Some (- 1 * int (digits_value 10 (takeWhile (is_radix_digit 10) s))))"
    unfolding parseInt_def Let_def ws sg s1 hx if_False ..
  then show ?thesis
    unfolding tw using assms(1) by simp
qed

lemma parseInt_decimal: "parseInt (decimal n) = Some (int n)"
  using parseInt_digits [OF decimal_nonempty decimal_digits, of n]
  by (simp add: digits_value_decimal)

lemma parseInt_minus_decimal: "parseInt (CHR ''-'' # decimal n) = Some (- int n)"
  using parseInt_minus_digits [OF decimal_nonempty decimal_digits, of n]
  by (simp add: digits_value_decimal)

lemma replace_first_prefix: "replace_first pat rep (pat @ s) = rep @ s"
proof (cases "pat @ s")
  case Nil
  then show ?thesis by simp
next
  case (Cons c cs)
  have "take (length pat) (pat @ s) = pat" and "drop (length pat) (pat @ s) = s"
    by simp_all
  then show ?thesis
    unfolding Cons by simp
qed

lemma selectedSlot_digit_key:
  "selectedSlot (handleKeyDown (''Digit'' @ decimal n) st) =
     (if 1 \<le> n \<and> n \<le> 9 then int n - 1 else selectedSlot st)"
proof -
  have sw: "startsWith (''Digit'' @ decimal n) ''Digit''"
    by (simp add: startsWith_def)
  have rp: "replace_first ''Digit'' [] (''Digit'' @ decimal n) = decimal n"
    using replace_first_prefix [of "''Digit''" "[]" "decimal n"] by simp
  show ?thesis
    unfolding handleKeyDown_def Let_def
    using sw by (simp only: rp parseInt_decimal if_True option.case) auto
qed

lemma selectedSlot_negative_digit_key:
  "selectedSlot (handleKeyDown (''Digit'' @ CHR ''-'' # decimal n) st) = selectedSlot st"
proof -
  have sw: "startsWith (''Digit'' @ CHR ''-'' # decimal n) ''Digit''"
    by (simp add: startsWith_def)
  have rp: "replace_first ''Digit'' [] (''Digit'' @ CHR ''-'' # decimal n) = CHR ''-'' # decimal n"
    using replace_first_prefix [of "''Digit''" "[]" "CHR ''-'' # decimal n"] by simp
  show ?thesis
    unfolding handleKeyDown_def Let_def
    using sw by (simp only: rp parseInt_minus_decimal if_True option.case) auto
qed

lemma decimal_5: "decimal 5 = ''5''"
  by code_simp

text \<open>
  Claim C7. A key-down event whose code is \<^verbatim>\<open>Digit\<close> followed by the numeral of \<open>n\<close> sets
  the selected slot to \<open>n - 1\<close> when \<open>n\<close> is one of 1, ..., 9, so \<^verbatim>\<open>Digit5\<close> selects slot
  4; when \<open>n\<close> is 0 or above 9, and when the numeral is negative, the selected slot stays
  as it was.
\<close>

theorem digit_key_selects_slot:
  "selectedSlot (handleKeyDown (''Digit'' @ decimal n) st) =
     (if 1 \<le> n \<and> n \<le> 9 then int n - 1 else selectedSlot st) \<and>
   selectedSlot (handleKeyDown ''Digit5'' st) = 4 \<and>
   selectedSlot (handleKeyDown (''Digit'' @ CHR ''-'' # decimal n) st) = selectedSlot st"
proof (intro conjI)
  show "selectedSlot (handleKeyDown (''Digit'' @ decimal n) st) =
     (if 1 \<le> n \<and> n \<le> 9 then int n - 1 else selectedSlot st)"
    by (rule selectedSlot_digit_key)
  show "selectedSlot (handleKeyDown ''Digit5'' st) = 4"
    using selectedSlot_digit_key [of 5 st] by (simp add: decimal_5)
  show "selectedSlot (handleKeyDown (''Digit'' @ CHR ''-'' # decimal n) st) = selectedSlot st"
    by (rule selectedSlot_negative_digit_key)
qed

theorem digit_key_selects_slot_witness:
  "selectedSlot (handleKeyDown ''Digit7'' initial_state) = 6 \<and>
   selectedSlot (handleKeyDown ''Digit0'' (initial_state\<lparr>selectedSlot := 3\<rparr>)) = 3 \<and>
   selectedSlot (handleKeyDown ''Digit12'' (initial_state\<lparr>selectedSlot := 3\<rparr>)) = 3"
proof -
  have d7: "decimal 7 = ''7''" by code_simp
  have d0: "decimal 0 = ''0''" by code_simp
  have d12: "decimal 12 = ''12''" by code_simp
  show ?thesis
    using digit_key_selects_slot [of 7 initial_state]
      digit_key_selects_slot [of 0 "initial_state\<lparr>selectedSlot := 3\<rparr>"]
      digit_key_selects_slot [of 12 "initial_state\<lparr>selectedSlot := 3\<rparr>"]
    by (simp add: d7 d0 d12)
qed

end
